theory Spec2Isabelle
  imports Main "HOL-Library.Char_ord" "HOL-Library.List_Lexorder"
begin

section \<open>Cloud Fire storage engine (utils/db) over an IndexedDB object-store model\<close>

text \<open>
  The engine of the repository is the module that exports \<^verbatim>\<open>registerUser\<close>,
  \<^verbatim>\<open>updateUserStorage\<close>, \<^verbatim>\<open>updateUser\<close>, \<^verbatim>\<open>deleteUser\<close>, \<^verbatim>\<open>addFileToDB\<close>,
  \<^verbatim>\<open>getFilesFromDB\<close>, \<^verbatim>\<open>trashFile\<close>, \<^verbatim>\<open>restoreFile\<close>, \<^verbatim>\<open>deleteFileFromDB\<close>,
  \<^verbatim>\<open>updateFileShareStatus\<close>, \<^verbatim>\<open>getFileByShareToken\<close>, \<^verbatim>\<open>addFolderToDB\<close>,
  \<^verbatim>\<open>getFoldersFromDB\<close>, \<^verbatim>\<open>getTrashedItems\<close> and \<^verbatim>\<open>emptyTrash\<close>, the operations on the
  \<^verbatim>\<open>users\<close>, \<^verbatim>\<open>files\<close> and \<^verbatim>\<open>folders\<close> stores that are modelled here (the \<^verbatim>\<open>config\<close>
  store and the reads of whole stores are left out). Every function opens one
  transaction on one object store, issues requests and settles a promise from the request
  callbacks. The embedding passes the database explicitly: an operation maps a database to
  the settled promise (\<open>Inr\<close> a value when it resolves, \<open>Inl\<close> an error when it rejects)
  and the database afterwards.

  Modelling decisions.
  \<^item> A TypeScript \<^verbatim>\<open>number\<close> is an IEEE double. The engine computes with byte counts,
    so a number is modelled by the integer it holds, and \<^verbatim>\<open>+\<close> is \<open>double_add\<close>: the exact
    sum rounded to the nearest double (53 significant bits, ties to even). Unary \<^verbatim>\<open>-\<close> is
    exact. Fractional values, \<^verbatim>\<open>NaN\<close>, the infinities and overflow (magnitude \<open>2^1024\<close>) have
    no counterpart in the model; every theorem below that depends on the value of a sum
    states the range of its numbers.
  \<^item> An optional field (\<^verbatim>\<open>isShared?: boolean\<close>) is an \<open>option\<close>; \<open>None\<close> is \<^verbatim>\<open>undefined\<close>.
    The engine reads such flags by truthiness (\<^verbatim>\<open>if (file.isShared)\<close>, \<^verbatim>\<open>!f.isTrashed\<close>),
    which is \<open>truthy\<close> below.
  \<^item> An object store is the list of its records in ascending key order, which is the order
    of a cursor and of \<^verbatim>\<open>getAll\<close>. Keys are strings, ordered lexicographically.
  \<^item> A request fails only for a reason the data decides: \<^verbatim>\<open>add\<close> on a key that is already
    present, and \<^verbatim>\<open>put\<close> of a record that would break a unique index, both with
    \<^verbatim>\<open>ConstraintError\<close>. The database is taken to be open, so \<^verbatim>\<open>getStore\<close> returns.
  \<^item> \<^verbatim>\<open>new Date().toISOString()\<close> is a parameter \<open>now\<close> of the operation that reads the clock.
\<close>

subsection \<open>Records of \<^verbatim>\<open>types.ts\<close>\<close>

datatype FileType = IMAGE | VIDEO | AUDIO | DOCUMENT | ARCHIVE | UNKNOWN

datatype Role = RoleAdmin | RoleUser

datatype Plan = PlanFree | PlanPro | PlanEnterprise

type_synonym blob = string

record CloudFile =
  file_id :: string
  file_name :: string
  file_size :: int
  file_type :: FileType
  file_parentId :: string
  file_createdAt :: string
  file_mimeType :: string
  file_ownerId :: string
  file_storageKey :: "string option"
  file_data :: "blob option"
  file_isShared :: "bool option"
  file_shareToken :: "string option"
  file_shareCreatedAt :: "string option"
  file_isTrashed :: "bool option"
  file_trashedAt :: "string option"

record CloudFolder =
  folder_id :: string
  folder_name :: string
  folder_parentId :: "string option"
  folder_createdAt :: string
  folder_ownerId :: string
  folder_isTrashed :: "bool option"
  folder_trashedAt :: "string option"

record User =
  user_id :: string
  user_username :: string
  user_password :: "string option"
  user_email :: string
  user_role :: Role
  user_plan :: Plan
  user_avatar :: string
  user_storageUsed :: int
  user_storageLimit :: int
  user_createdAt :: string
  user_isActive :: bool

text \<open>The three object stores the engine operations touch.\<close>

record db =
  users :: "User list"
  files :: "CloudFile list"
  folders :: "CloudFolder list"

text \<open>What a promise is rejected with: the \<^verbatim>\<open>ConstraintError\<close> of a failed request, the
  message of \<^verbatim>\<open>updateFileShareStatus\<close> for a missing file (Portuguese for "file not found"),
  or the message of \<^verbatim>\<open>registerUser\<close> (Portuguese for "user name already exists").\<close>

datatype error = ConstraintError | ArquivoNaoEncontrado | NomeDeUsuarioJaExiste

text \<open>JavaScript truthiness of an optional boolean: only \<^verbatim>\<open>true\<close> is truthy.\<close>

fun truthy :: "bool option \<Rightarrow> bool" where
  "truthy (Some b) = b"
| "truthy None = False"

subsection \<open>Numbers\<close>

text \<open>The number of halvings that bring a magnitude below \<open>2^53 = 9007199254740992\<close>: the
  exponent of the unit in the last place of the double that holds it.\<close>

function excess_bits :: "nat \<Rightarrow> nat" where
  "excess_bits n = (if n < 9007199254740992 then 0 else Suc (excess_bits (n div 2)))"
  by pat_completeness auto
termination
  by (relation "measure (\<lambda>n. n)") auto

declare excess_bits.simps [simp del]

text \<open>Rounding of a magnitude to 53 significant bits, to nearest and ties to the even
  significand, as IEEE 754 addition rounds an exact sum.\<close>

definition round_nat :: "nat \<Rightarrow> nat" where
  "round_nat n =
     (let e = excess_bits n; q = n div 2 ^ e; r = n mod 2 ^ e
      in if 2 * r < 2 ^ e \<or> (2 * r = 2 ^ e \<and> even q) then q * 2 ^ e else (q + 1) * 2 ^ e)"

definition round_double :: "int \<Rightarrow> int" where
  "round_double x = (if x < 0 then - int (round_nat (nat (- x))) else int (round_nat (nat x)))"

text \<open>\<^verbatim>\<open>a + b\<close> on integer-valued doubles.\<close>

definition double_add :: "int \<Rightarrow> int \<Rightarrow> int" where
  "double_add a b = round_double (a + b)"

text \<open>\<^verbatim>\<open>Number.isSafeInteger\<close>: magnitude at most \<open>2^53 - 1\<close>.\<close>

definition safe_integer :: "int \<Rightarrow> bool" where
  "safe_integer x \<longleftrightarrow> - 9007199254740991 \<le> x \<and> x \<le> 9007199254740991"

subsection \<open>Object-store requests\<close>

text \<open>\<^verbatim>\<open>store.get(k)\<close>: the first record in key order whose field \<open>key\<close> is \<open>k\<close>, or
  \<^verbatim>\<open>undefined\<close>. With the key path of the store as \<open>key\<close> this is the record stored
  under \<open>k\<close>; with an indexed field it is \<^verbatim>\<open>index.get(k)\<close>.\<close>

fun os_get :: "('r \<Rightarrow> string) \<Rightarrow> string \<Rightarrow> 'r list \<Rightarrow> 'r option" where
  "os_get key k [] = None"
| "os_get key k (r # rs) = (if key r = k then Some r else os_get key k rs)"

text \<open>\<^verbatim>\<open>store.put(v)\<close>: replaces the record with the key of \<open>v\<close>, or inserts \<open>v\<close> at its
  place in key order.\<close>

fun os_put :: "('r \<Rightarrow> string) \<Rightarrow> 'r \<Rightarrow> 'r list \<Rightarrow> 'r list" where
  "os_put key v [] = [v]"
| "os_put key v (r # rs) =
     (if key r = key v then v # rs
      else if key v < key r then v # r # rs
      else r # os_put key v rs)"

text \<open>\<^verbatim>\<open>store.add(v)\<close>: as \<^verbatim>\<open>put\<close>, but the request fails when the key is present.\<close>

definition os_add :: "('r \<Rightarrow> string) \<Rightarrow> 'r \<Rightarrow> 'r list \<Rightarrow> error + 'r list" where
  "os_add key v rs =
     (case os_get key (key v) rs of
        Some r \<Rightarrow> Inl ConstraintError
      | None \<Rightarrow> Inr (os_put key v rs))"

text \<open>\<^verbatim>\<open>store.delete(k)\<close>: succeeds whether or not the key is present.\<close>

definition os_delete :: "('r \<Rightarrow> string) \<Rightarrow> string \<Rightarrow> 'r list \<Rightarrow> 'r list" where
  "os_delete key k rs = filter (\<lambda>r. key r \<noteq> k) rs"

text \<open>\<^verbatim>\<open>store.index(name).getAll(k)\<close> on a non-unique index: the records whose indexed
  field is \<open>k\<close>, in primary-key order. A record whose indexed field is \<^verbatim>\<open>null\<close> has no
  entry in the index, hence the optional field.\<close>

definition index_getAll :: "('r \<Rightarrow> string option) \<Rightarrow> string \<Rightarrow> 'r list \<Rightarrow> 'r list" where
  "index_getAll field k rs = filter (\<lambda>r. field r = Some k) rs"

text \<open>The \<^verbatim>\<open>users\<close> store has key path \<^verbatim>\<open>username\<close> and a unique index on \<^verbatim>\<open>id\<close>.
  \<^verbatim>\<open>index.get(userId)\<close> is the record with that id.\<close>

definition users_index_get :: "string \<Rightarrow> User list \<Rightarrow> User option" where
  "users_index_get userId us = os_get user_id userId us"

text \<open>\<^verbatim>\<open>put\<close> on the \<^verbatim>\<open>users\<close> store fails when another record (a different
  \<^verbatim>\<open>username\<close>) already has the \<^verbatim>\<open>id\<close> of the record written.\<close>

definition users_put :: "User \<Rightarrow> User list \<Rightarrow> error + User list" where
  "users_put u us =
     (if list_ex (\<lambda>r. user_id r = user_id u \<and> user_username r \<noteq> user_username u) us
      then Inl ConstraintError
      else Inr (os_put user_username u us))"

text \<open>What IndexedDB guarantees of the \<^verbatim>\<open>users\<close> store: keys in ascending order without
  repetition, and no two records with one \<^verbatim>\<open>id\<close>.\<close>

definition wf_users :: "User list \<Rightarrow> bool" where
  "wf_users us \<longleftrightarrow>
     sorted (map user_username us) \<and> distinct (map user_username us) \<and> distinct (map user_id us)"

subsection \<open>User operations\<close>

text \<open>\<^verbatim>\<open>registerUser\<close>: the \<^verbatim>\<open>add\<close> fails when the \<^verbatim>\<open>username\<close> key is taken or when the
  unique \<^verbatim>\<open>id\<close> index already has the id; either way the promise is rejected with the one
  message.\<close>

definition registerUser :: "User \<Rightarrow> db \<Rightarrow> (error + unit) \<times> db" where
  "registerUser user d =
     (if list_ex (\<lambda>r. user_username r = user_username user \<or> user_id r = user_id user) (users d)
      then (Inl NomeDeUsuarioJaExiste, d)
      else (Inr (), d\<lparr>users := os_put user_username user (users d)\<rparr>))"

definition updateUser :: "User \<Rightarrow> db \<Rightarrow> (error + unit) \<times> db" where
  "updateUser user d =
     (case users_put user (users d) of
        Inr us' \<Rightarrow> (Inr (), d\<lparr>users := us'\<rparr>)
      | Inl e \<Rightarrow> (Inl e, d))"

definition deleteUser :: "string \<Rightarrow> db \<Rightarrow> (error + unit) \<times> db" where
  "deleteUser username d = (Inr (), d\<lparr>users := os_delete user_username username (users d)\<rparr>)"

definition updateUserStorage :: "string \<Rightarrow> int \<Rightarrow> db \<Rightarrow> (error + unit) \<times> db" where
  "updateUserStorage userId bytesToAdd d =
     (case users_index_get userId (users d) of
        Some u \<Rightarrow>
          (case users_put (u\<lparr>user_storageUsed := double_add (user_storageUsed u) bytesToAdd\<rparr>)
                  (users d) of
             Inr us' \<Rightarrow> (Inr (), d\<lparr>users := us'\<rparr>)
           | Inl e \<Rightarrow> (Inl e, d))
      | None \<Rightarrow> (Inr (), d))"

subsection \<open>File operations\<close>

definition addFileToDB :: "CloudFile \<Rightarrow> db \<Rightarrow> (error + unit) \<times> db" where
  "addFileToDB file d =
     (case updateUserStorage (file_ownerId file) (file_size file) d of
        (Inl e, d1) \<Rightarrow> (Inl e, d1)
      | (Inr _, d1) \<Rightarrow>
          (case os_add file_id file (files d1) of
             Inr fs' \<Rightarrow> (Inr (), d1\<lparr>files := fs'\<rparr>)
           | Inl e \<Rightarrow> (Inl e, d1)))"

definition getFilesFromDB :: "string \<Rightarrow> string \<Rightarrow> db \<Rightarrow> (error + CloudFile list) \<times> db" where
  "getFilesFromDB parentId ownerId d =
     (Inr (filter (\<lambda>f. file_ownerId f = ownerId \<and> \<not> truthy (file_isTrashed f))
             (index_getAll (\<lambda>f. Some (file_parentId f)) parentId (files d))), d)"

definition trashFile :: "string \<Rightarrow> string \<Rightarrow> db \<Rightarrow> (error + unit) \<times> db" where
  "trashFile ident now d =
     (case os_get file_id ident (files d) of
        Some file \<Rightarrow>
          (let file1 = file\<lparr>file_isTrashed := Some True, file_trashedAt := Some now\<rparr>;
               file2 = (if truthy (file_isShared file1)
                        then file1\<lparr>file_isShared := Some False\<rparr> else file1)
           in (Inr (), d\<lparr>files := os_put file_id file2 (files d)\<rparr>))
      | None \<Rightarrow> (Inr (), d))"

definition restoreFile :: "string \<Rightarrow> db \<Rightarrow> (error + unit) \<times> db" where
  "restoreFile ident d =
     (case os_get file_id ident (files d) of
        Some file \<Rightarrow>
          (Inr (), d\<lparr>files :=
             os_put file_id (file\<lparr>file_isTrashed := Some False, file_trashedAt := None\<rparr>) (files d)\<rparr>)
      | None \<Rightarrow> (Inr (), d))"

definition deleteFileFromDB :: "string \<Rightarrow> string \<Rightarrow> int \<Rightarrow> db \<Rightarrow> (error + unit) \<times> db" where
  "deleteFileFromDB ident ownerId sz d =
     (case updateUserStorage ownerId (- sz) d of
        (Inl e, d1) \<Rightarrow> (Inl e, d1)
      | (Inr _, d1) \<Rightarrow> (Inr (), d1\<lparr>files := os_delete file_id ident (files d1)\<rparr>))"

subsection \<open>Sharing operations\<close>

definition updateFileShareStatus ::
  "string \<Rightarrow> bool \<Rightarrow> string option \<Rightarrow> string \<Rightarrow> db \<Rightarrow> (error + unit) \<times> db" where
  "updateFileShareStatus fileId isShared shareToken now d =
     (case os_get file_id fileId (files d) of
        Some file \<Rightarrow>
          (Inr (), d\<lparr>files := os_put file_id
             (file\<lparr>file_isShared := Some isShared,
                   file_shareToken := shareToken,
                   file_shareCreatedAt := (if isShared then Some now else None)\<rparr>) (files d)\<rparr>)
      | None \<Rightarrow> (Inl ArquivoNaoEncontrado, d))"

text \<open>The cursor loop of \<^verbatim>\<open>getFileByShareToken\<close>: one call of the success callback per
  record, in key order, and a last one with no cursor.\<close>

fun cursor_scan :: "string \<Rightarrow> CloudFile list \<Rightarrow> CloudFile option" where
  "cursor_scan token [] = None"
| "cursor_scan token (file # rest) =
     (if truthy (file_isShared file) \<and> file_shareToken file = Some token
         \<and> \<not> truthy (file_isTrashed file)
      then Some file else cursor_scan token rest)"

definition getFileByShareToken :: "string \<Rightarrow> db \<Rightarrow> (error + CloudFile option) \<times> db" where
  "getFileByShareToken token d = (Inr (cursor_scan token (files d)), d)"

subsection \<open>Folder operations\<close>

definition addFolderToDB :: "CloudFolder \<Rightarrow> db \<Rightarrow> (error + unit) \<times> db" where
  "addFolderToDB folder d =
     (case os_add folder_id folder (folders d) of
        Inr fs' \<Rightarrow> (Inr (), d\<lparr>folders := fs'\<rparr>)
      | Inl e \<Rightarrow> (Inl e, d))"

definition getFoldersFromDB :: "string \<Rightarrow> string \<Rightarrow> db \<Rightarrow> (error + CloudFolder list) \<times> db" where
  "getFoldersFromDB parentId ownerId d =
     (Inr (filter (\<lambda>f. folder_ownerId f = ownerId \<and> \<not> truthy (folder_isTrashed f))
             (index_getAll folder_parentId parentId (folders d))), d)"

subsection \<open>Trash management\<close>

definition getTrashedItems :: "string \<Rightarrow> db \<Rightarrow> (CloudFile list \<times> CloudFolder list) \<times> db" where
  "getTrashedItems ownerId d =
     ((filter (\<lambda>f. file_ownerId f = ownerId \<and> truthy (file_isTrashed f)) (files d),
       filter (\<lambda>f. folder_ownerId f = ownerId \<and> truthy (folder_isTrashed f)) (folders d)), d)"

text \<open>The \<^verbatim>\<open>for ... of\<close> loop of \<^verbatim>\<open>emptyTrash\<close>; a rejected purge ends it.\<close>

fun purge_each :: "CloudFile list \<Rightarrow> string \<Rightarrow> db \<Rightarrow> (error + unit) \<times> db" where
  "purge_each [] ownerId d = (Inr (), d)"
| "purge_each (file # rest) ownerId d =
     (case deleteFileFromDB (file_id file) ownerId (file_size file) d of
        (Inl e, d1) \<Rightarrow> (Inl e, d1)
      | (Inr _, d1) \<Rightarrow> purge_each rest ownerId d1)"

definition emptyTrash :: "string \<Rightarrow> db \<Rightarrow> (error + unit) \<times> db" where
  "emptyTrash ownerId d =
     (case getTrashedItems ownerId d of
        ((trashed, _), d1) \<Rightarrow> purge_each trashed ownerId d1)"

subsection \<open>The sharing invariant of the data model\<close>

text \<open>A shared file carries a share token.\<close>

definition share_inv :: "CloudFile \<Rightarrow> bool" where
  "share_inv f \<longleftrightarrow> (truthy (file_isShared f) \<longrightarrow> file_shareToken f \<noteq> None)"

definition files_inv :: "db \<Rightarrow> bool" where
  "files_inv d \<longleftrightarrow> list_all share_inv (files d)"

subsection \<open>A sample database\<close>

text \<open>One user over the limit of the plan; a shared file, a trashed file that still carries a
  share token, and a file of another owner; folders in the same three situations.\<close>

definition ex_user :: User where
  "ex_user = \<lparr>user_id = ''u1'', user_username = ''alice'', user_password = Some ''pw'',
     user_email = ''alice@example.org'', user_role = RoleUser, user_plan = PlanFree,
     user_avatar = '''', user_storageUsed = 6000, user_storageLimit = 5000,
     user_createdAt = ''2024-01-01'', user_isActive = True\<rparr>"

definition ex_shared :: CloudFile where
  "ex_shared = \<lparr>file_id = ''fi-1'', file_name = ''a.txt'', file_size = 700, file_type = DOCUMENT,
     file_parentId = ''root'', file_createdAt = ''2024-01-02'', file_mimeType = ''text/plain'',
     file_ownerId = ''u1'', file_storageKey = None, file_data = None,
     file_isShared = Some True, file_shareToken = Some ''tok'', file_shareCreatedAt = Some ''2024-01-03'',
     file_isTrashed = None, file_trashedAt = None\<rparr>"

definition ex_trashed :: CloudFile where
  "ex_trashed = \<lparr>file_id = ''fi-2'', file_name = ''b.png'', file_size = 300, file_type = IMAGE,
     file_parentId = ''root'', file_createdAt = ''2024-01-02'', file_mimeType = ''image/png'',
     file_ownerId = ''u1'', file_storageKey = None, file_data = None,
     file_isShared = Some True, file_shareToken = Some ''old'', file_shareCreatedAt = None,
     file_isTrashed = Some True, file_trashedAt = Some ''2024-01-04''\<rparr>"

definition ex_foreign :: CloudFile where
  "ex_foreign = \<lparr>file_id = ''fi-3'', file_name = ''c.zip'', file_size = 5000, file_type = ARCHIVE,
     file_parentId = ''root'', file_createdAt = ''2024-01-02'', file_mimeType = ''application/zip'',
     file_ownerId = ''u2'', file_storageKey = None, file_data = None,
     file_isShared = None, file_shareToken = None, file_shareCreatedAt = None,
     file_isTrashed = None, file_trashedAt = None\<rparr>"

definition ex_new :: CloudFile where
  "ex_new = \<lparr>file_id = ''fi-9'', file_name = ''d.mp4'', file_size = 1000000, file_type = VIDEO,
     file_parentId = ''root'', file_createdAt = ''2024-01-05'', file_mimeType = ''video/mp4'',
     file_ownerId = ''u1'', file_storageKey = Some ''public/content/d.mp4'', file_data = None,
     file_isShared = Some False, file_shareToken = None, file_shareCreatedAt = None,
     file_isTrashed = None, file_trashedAt = None\<rparr>"


definition ex_folder :: CloudFolder where
  "ex_folder = \<lparr>folder_id = ''f-1'', folder_name = ''docs'', folder_parentId = Some ''root'',
     folder_createdAt = ''2024-01-02'', folder_ownerId = ''u1'',
     folder_isTrashed = None, folder_trashedAt = None\<rparr>"

definition ex_folder_trashed :: CloudFolder where
  "ex_folder_trashed = \<lparr>folder_id = ''f-2'', folder_name = ''old'', folder_parentId = Some ''root'',
     folder_createdAt = ''2024-01-02'', folder_ownerId = ''u1'',
     folder_isTrashed = Some True, folder_trashedAt = Some ''2024-01-04''\<rparr>"

definition ex_folder_foreign :: CloudFolder where
  "ex_folder_foreign = \<lparr>folder_id = ''f-3'', folder_name = ''theirs'', folder_parentId = Some ''root'',
     folder_createdAt = ''2024-01-02'', folder_ownerId = ''u2'',
     folder_isTrashed = None, folder_trashedAt = None\<rparr>"

definition ex_db :: db where
  "ex_db = \<lparr>users = [ex_user], files = [ex_shared, ex_trashed, ex_foreign],
     folders = [ex_folder, ex_folder_trashed, ex_folder_foreign]\<rparr>"

text \<open>The sample database with another \<open>storageUsed\<close> for its user.\<close>

definition ex_db_used :: "int \<Rightarrow> db" where
  "ex_db_used n = ex_db\<lparr>users := [ex_user\<lparr>user_storageUsed := n\<rparr>]\<rparr>"

lemmas ex_defs = ex_db_def ex_user_def ex_shared_def ex_trashed_def ex_foreign_def ex_new_def
  ex_folder_def ex_folder_trashed_def ex_folder_foreign_def

section \<open>Properties of the rounding\<close>

text \<open>Sums that are safe integers are exact.\<close>

lemma excess_bits_small: "n < 9007199254740992 \<Longrightarrow> excess_bits n = 0"
  by (subst excess_bits.simps) simp

lemma round_nat_small: "n < 9007199254740992 \<Longrightarrow> round_nat n = n"
  by (simp add: round_nat_def excess_bits_small)

lemma round_double_safe: "safe_integer x \<Longrightarrow> round_double x = x"
  by (auto simp: round_double_def safe_integer_def round_nat_small)

lemma double_add_safe: "safe_integer (a + b) \<Longrightarrow> double_add a b = a + b"
  by (simp add: double_add_def round_double_safe)

text \<open>Beyond \<open>2^53\<close> they are not: the doubles there are the even integers, then the
  multiples of four.\<close>

lemma double_add_one_2p53: "double_add 1 9007199254740992 = 9007199254740992"
  by (simp add: double_add_def round_double_def round_nat_def excess_bits.simps)


lemma double_add_2p53_minus: "double_add 9007199254740992 (- 9007199254740992) = 0"
  by (simp add: double_add_def round_double_def round_nat_def excess_bits.simps)

lemma double_add_2p54_minus_one: "double_add 18014398509481984 (- 1) = 18014398509481984"
  by (simp add: double_add_def round_double_def round_nat_def excess_bits.simps)

section \<open>Properties of the object-store requests\<close>

lemma os_get_put_same: "os_get key (key v) (os_put key v rs) = Some v"
  by (induction rs) auto

lemma os_get_put_other: "k \<noteq> key v \<Longrightarrow> os_get key k (os_put key v rs) = os_get key k rs"
  by (induction rs) auto

lemma os_get_SomeD: "os_get key k rs = Some r \<Longrightarrow> r \<in> set rs \<and> key r = k"
  by (induction rs) (auto split: if_splits)

lemma os_get_None_iff: "os_get key k rs = None \<longleftrightarrow> k \<notin> key ` set rs"
  by (induction rs) auto

lemma os_get_distinct_mem:
  "distinct (map key rs) \<Longrightarrow> r \<in> set rs \<Longrightarrow> os_get key (key r) rs = Some r"
  by (induction rs) (auto simp: rev_image_eqI)

lemma set_os_put_subset: "set (os_put key v rs) \<subseteq> insert v (set rs)"
  by (induction rs) auto

lemma os_put_mem: "v \<in> set (os_put key v rs)"
  by (induction rs) auto

lemma set_os_delete_subset: "set (os_delete key k rs) \<subseteq> set rs"
  by (auto simp: os_delete_def)

lemma map_os_put_present:
  "sorted (map key rs) \<Longrightarrow> os_get key (key v) rs = Some r \<Longrightarrow> g v = g r
     \<Longrightarrow> map g (os_put key v rs) = map g rs"
proof (induction rs)
  case Nil
  then show ?case by simp
next
  case (Cons a rs)
  show ?case
  proof (cases "key a = key v")
    case True
    with Cons.prems show ?thesis by simp
  next
    case False
    with Cons.prems have get: "os_get key (key v) rs = Some r" by simp
    have "key v \<in> set (map key rs)" using os_get_SomeD [OF get] by (metis imageI set_map)
    with Cons.prems(1) have "key a \<le> key v" by auto
    with False have "\<not> key v < key a" by simp
    with False Cons.IH Cons.prems get show ?thesis by simp
  qed
qed


lemma users_put_present:
  assumes "wf_users us" and "users_index_get uid us = Some u"
    and "user_id u' = user_id u" and "user_username u' = user_username u"
  shows "users_put u' us = Inr (os_put user_username u' us)"
    and "wf_users (os_put user_username u' us)"
    and "users_index_get uid (os_put user_username u' us) = Some u'"
proof -
  from assms(2) have mem: "u \<in> set us" and uid: "user_id u = uid"
    using os_get_SomeD [of user_id uid us u] by (simp_all add: users_index_get_def)
  from assms(1) have srt: "sorted (map user_username us)"
    and dn: "distinct (map user_username us)" and di: "distinct (map user_id us)"
    by (simp_all add: wf_users_def)
  have "\<not> list_ex (\<lambda>r. user_id r = user_id u' \<and> user_username r \<noteq> user_username u') us"
  proof
    assume "list_ex (\<lambda>r. user_id r = user_id u' \<and> user_username r \<noteq> user_username u') us"
    then obtain r where r: "r \<in> set us" "user_id r = user_id u" "user_username r \<noteq> user_username u"
      using assms(3,4) by (auto simp: list_ex_iff)
    from di r(1,2) mem have "r = u"
      by (meson distinct_map inj_onD)
    with r(3) show False by simp
  qed
  then show "users_put u' us = Inr (os_put user_username u' us)"
    by (simp add: users_put_def)
  have get: "os_get user_username (user_username u') us = Some u"
    using os_get_distinct_mem [OF dn mem] assms(4) by simp
  have mn: "map user_username (os_put user_username u' us) = map user_username us"
    by (rule map_os_put_present [OF srt get]) (rule assms(4))
  have mi: "map user_id (os_put user_username u' us) = map user_id us"
    by (rule map_os_put_present [OF srt get]) (rule assms(3))
  show "wf_users (os_put user_username u' us)"
    using srt dn di by (simp add: wf_users_def mn mi)
  have "os_get user_id (user_id u') (os_put user_username u' us) = Some u'"
    by (rule os_get_distinct_mem) (simp_all add: mi di os_put_mem)
  then show "users_index_get uid (os_put user_username u' us) = Some u'"
    by (simp add: users_index_get_def assms(3) uid)
qed

lemma updateUserStorage_present:
  assumes "wf_users (users d)" and "users_index_get uid (users d) = Some u"
  shows "updateUserStorage uid n d =
    (Inr (), d\<lparr>users := os_put user_username
                          (u\<lparr>user_storageUsed := double_add (user_storageUsed u) n\<rparr>) (users d)\<rparr>)"
  using users_put_present(1)
          [OF assms, of "u\<lparr>user_storageUsed := double_add (user_storageUsed u) n\<rparr>"] assms(2)
  by (simp add: updateUserStorage_def)

lemma updateUserStorage_present_get:
  assumes "wf_users (users d)" and "users_index_get uid (users d) = Some u"
  shows "wf_users (users (snd (updateUserStorage uid n d)))"
    and "users_index_get uid (users (snd (updateUserStorage uid n d)))
         = Some (u\<lparr>user_storageUsed := double_add (user_storageUsed u) n\<rparr>)"
  using users_put_present(2,3)
          [OF assms, of "u\<lparr>user_storageUsed := double_add (user_storageUsed u) n\<rparr>"]
  by (simp_all add: updateUserStorage_present [OF assms])

lemma updateUserStorage_absent:
  "users_index_get uid (users d) = None \<Longrightarrow> updateUserStorage uid n d = (Inr (), d)"
  by (simp add: updateUserStorage_def)

section \<open>The \<^verbatim>\<open>users\<close> store stays well-formed\<close>

text \<open>The empty store is well-formed and every modelled operation keeps it so: the hypothesis
  \<open>wf_users\<close> of the theorems below holds of every database the engine can reach.\<close>

lemma wf_users_empty: "wf_users []"
  by (simp add: wf_users_def)

lemma sorted_os_put: "sorted (map key rs) \<Longrightarrow> sorted (map key (os_put key v rs))"
proof (induction rs)
  case Nil
  then show ?case by simp
next
  case (Cons r rs)
  have "key r \<le> key x" if "x \<in> set (os_put key v rs)" "\<not> key v < key r" for x
    using that set_os_put_subset [of key v rs] Cons.prems by auto
  with Cons show ?case by auto
qed

lemma distinct_os_put_fresh:
  "distinct (map g rs) \<Longrightarrow> g v \<notin> g ` set rs \<Longrightarrow> key v \<notin> key ` set rs
     \<Longrightarrow> distinct (map g (os_put key v rs))"
proof (induction rs)
  case Nil
  then show ?case by simp
next
  case (Cons r rs)
  have "g r \<notin> g ` set (os_put key v rs)"
    using set_os_put_subset [of key v rs] Cons.prems by auto
  with Cons show ?case by auto
qed

lemma wf_users_registerUser:
  assumes "wf_users (users d)"
  shows "wf_users (users (snd (registerUser usr d)))"
proof (cases "list_ex (\<lambda>r. user_username r = user_username usr \<or> user_id r = user_id usr) (users d)")
  case True
  with assms show ?thesis by (simp add: registerUser_def)
next
  case False
  then have fresh: "user_username usr \<notin> user_username ` set (users d)"
      "user_id usr \<notin> user_id ` set (users d)"
    by (auto simp: list_ex_iff)
  from assms have "sorted (map user_username (os_put user_username usr (users d)))"
    by (simp add: wf_users_def sorted_os_put)
  moreover from assms fresh have "distinct (map user_username (os_put user_username usr (users d)))"
    by (simp add: wf_users_def distinct_os_put_fresh)
  moreover from assms fresh have "distinct (map user_id (os_put user_username usr (users d)))"
    by (simp add: wf_users_def distinct_os_put_fresh)
  ultimately show ?thesis
    using False by (simp add: registerUser_def wf_users_def)
qed

lemma wf_users_updateUserStorage:
  assumes "wf_users (users d)"
  shows "wf_users (users (snd (updateUserStorage uid n d)))"
proof (cases "users_index_get uid (users d)")
  case None
  with assms show ?thesis by (simp add: updateUserStorage_absent)
next
  case (Some u)
  show ?thesis
    by (rule updateUserStorage_present_get(1) [OF assms Some])
qed

lemma wf_users_deleteUser:
  "wf_users (users d) \<Longrightarrow> wf_users (users (snd (deleteUser uname d)))"
  by (simp add: deleteUser_def wf_users_def os_delete_def distinct_map_filter sorted_filter)

lemma wf_users_file_operations:
  assumes "wf_users (users d)"
  shows "wf_users (users (snd (addFileToDB f d)))"
    and "wf_users (users (snd (deleteFileFromDB i owner sz d)))"
    and "wf_users (users (snd (trashFile i now d)))"
    and "wf_users (users (snd (restoreFile i d)))"
    and "wf_users (users (snd (updateFileShareStatus i enabled token now d)))"
proof -
  obtain r d1 where up: "updateUserStorage (file_ownerId f) (file_size f) d = (r, d1)"
    by (cases "updateUserStorage (file_ownerId f) (file_size f) d")
  with wf_users_updateUserStorage [OF assms, of "file_ownerId f" "file_size f"]
  show "wf_users (users (snd (addFileToDB f d)))"
    by (simp add: addFileToDB_def split: sum.split)
  obtain r' d2 where down: "updateUserStorage owner (- sz) d = (r', d2)"
    by (cases "updateUserStorage owner (- sz) d")
  with wf_users_updateUserStorage [OF assms, of owner "- sz"]
  show "wf_users (users (snd (deleteFileFromDB i owner sz d)))"
    by (simp add: deleteFileFromDB_def split: sum.split)
  from assms show "wf_users (users (snd (trashFile i now d)))"
    by (simp add: trashFile_def Let_def split: option.split)
  from assms show "wf_users (users (snd (restoreFile i d)))"
    by (simp add: restoreFile_def split: option.split)
  from assms show "wf_users (users (snd (updateFileShareStatus i enabled token now d)))"
    by (simp add: updateFileShareStatus_def split: option.split)
qed

lemma distinct_os_put:
  assumes "sorted (map key rs)" and "distinct (map key rs)" and "distinct (map g rs)"
    and "\<forall>r \<in> set rs. g r = g v \<longrightarrow> key r = key v"
  shows "distinct (map g (os_put key v rs))"
  using assms
proof (induction rs)
  case Nil
  then show ?case by simp
next
  case (Cons r rs)
  show ?case
  proof (cases "key r = key v")
    case True
    with Cons.prems show ?thesis by (auto simp: image_iff)
  next
    case False
    show ?thesis
    proof (cases "key v < key r")
      case True
      with False Cons.prems show ?thesis by (fastforce simp: image_iff)
    next
      case ge: False
      have "g r \<notin> g ` set (os_put key v rs)"
        using set_os_put_subset [of key v rs] Cons.prems False by auto
      moreover have "distinct (map g (os_put key v rs))"
        using Cons.IH Cons.prems by simp
      ultimately show ?thesis using False ge by simp
    qed
  qed
qed

lemma wf_users_updateUser:
  assumes "wf_users (users d)"
  shows "wf_users (users (snd (updateUser usr d)))"
proof (cases "list_ex (\<lambda>r. user_id r = user_id usr \<and> user_username r \<noteq> user_username usr) (users d)")
  case True
  with assms show ?thesis by (simp add: updateUser_def users_put_def)
next
  case False
  then have ok: "\<forall>r \<in> set (users d). user_id r = user_id usr \<longrightarrow> user_username r = user_username usr"
    by (auto simp: list_ex_iff)
  from assms have srt: "sorted (map user_username (users d))"
    and dn: "distinct (map user_username (users d))" and di: "distinct (map user_id (users d))"
    by (simp_all add: wf_users_def)
  have "distinct (map user_username (os_put user_username usr (users d)))"
    by (rule distinct_os_put [OF srt dn dn]) simp
  moreover have "distinct (map user_id (os_put user_username usr (users d)))"
    by (rule distinct_os_put [OF srt dn di ok])
  ultimately show ?thesis
    using False srt by (simp add: updateUser_def users_put_def wf_users_def sorted_os_put)
qed

lemma wf_users_addFolderToDB:
  "wf_users (users d) \<Longrightarrow> wf_users (users (snd (addFolderToDB folder d)))"
  by (simp add: addFolderToDB_def split: sum.split)

lemma wf_users_purge_each:
  "wf_users (users d) \<Longrightarrow> wf_users (users (snd (purge_each fs owner d)))"
proof (induction fs arbitrary: d)
  case Nil
  then show ?case by simp
next
  case (Cons f fs)
  obtain r d1 where del: "deleteFileFromDB (file_id f) owner (file_size f) d = (r, d1)"
    by (cases "deleteFileFromDB (file_id f) owner (file_size f) d")
  have wf1: "wf_users (users d1)"
    using wf_users_file_operations(2) [OF Cons.prems, of "file_id f" owner "file_size f"] del
    by simp
  show ?case
    using wf1 Cons.IH [OF wf1] by (simp add: del split: sum.split)
qed

lemma wf_users_emptyTrash:
  "wf_users (users d) \<Longrightarrow> wf_users (users (snd (emptyTrash owner d)))"
  by (simp add: emptyTrash_def getTrashedItems_def wf_users_purge_each)

section \<open>Properties of the engine operations\<close>

text \<open>What upload and purge do to the \<^verbatim>\<open>users\<close> store is what their call of
  \<open>updateUserStorage\<close> does.\<close>

lemma users_addFileToDB:
  "users (snd (addFileToDB f d)) = users (snd (updateUserStorage (file_ownerId f) (file_size f) d))"
  by (cases "updateUserStorage (file_ownerId f) (file_size f) d")
     (simp add: addFileToDB_def split: sum.split)

lemma users_deleteFileFromDB:
  "users (snd (deleteFileFromDB i owner sz d)) = users (snd (updateUserStorage owner (- sz) d))"
  by (cases "updateUserStorage owner (- sz) d")
     (simp add: deleteFileFromDB_def split: sum.split)

lemma addFileToDB_storageUsed:
  assumes "wf_users (users d)"
    and "users_index_get (file_ownerId f) (users d) = Some u"
  shows "wf_users (users (snd (addFileToDB f d)))"
    and "users_index_get (file_ownerId f) (users (snd (addFileToDB f d)))
         = Some (u\<lparr>user_storageUsed := double_add (user_storageUsed u) (file_size f)\<rparr>)"
  using updateUserStorage_present_get [OF assms, of "file_size f"]
  by (simp_all add: users_addFileToDB)

lemma deleteFileFromDB_storageUsed:
  assumes "wf_users (users d)"
    and "users_index_get owner (users d) = Some u"
  shows "users_index_get owner (users (snd (deleteFileFromDB i owner sz d)))
         = Some (u\<lparr>user_storageUsed := double_add (user_storageUsed u) (- sz)\<rparr>)"
  using updateUserStorage_present_get(2) [OF assms, of "- sz"]
  by (simp add: users_deleteFileFromDB)

lemma upload_then_purge_storageUsed:
  assumes "wf_users (users d)"
    and "users_index_get (file_ownerId f) (users d) = Some u"
  shows "map_option user_storageUsed
           (users_index_get (file_ownerId f)
              (users (snd (deleteFileFromDB (file_id f) (file_ownerId f) (file_size f)
                             (snd (addFileToDB f d))))))
         = Some (double_add (double_add (user_storageUsed u) (file_size f)) (- file_size f))"
  using deleteFileFromDB_storageUsed [OF addFileToDB_storageUsed [OF assms],
          of "file_id f" "file_size f"]
  by simp

lemma wf_users_ex_db_used: "wf_users (users (ex_db_used n))"
  by (simp add: wf_users_def ex_db_used_def ex_user_def)

lemma users_index_get_ex_db_used:
  "users_index_get ''u1'' (users (ex_db_used n)) = Some (ex_user\<lparr>user_storageUsed := n\<rparr>)"
  by (simp add: users_index_get_def ex_db_used_def ex_user_def)

text \<open>
  C1, as stated, fails. The user of the sample database has \<open>storageUsed = 1\<close> and uploads a
  file of \<open>2^53\<close> bytes. The sum \<open>2^53 + 1\<close> is not a double and rounds to \<open>2^53\<close>, so the
  purge of that file with that size leaves \<open>storageUsed = 0\<close>, not \<open>1\<close>.
\<close>

theorem upload_then_purge_rounding_counterexample:
  "map_option user_storageUsed (users_index_get ''u1'' (users (ex_db_used 1))) = Some 1
   \<and> map_option user_storageUsed
       (users_index_get ''u1''
          (users (snd (deleteFileFromDB ''fi-9'' ''u1'' 9007199254740992
                         (snd (addFileToDB (ex_new\<lparr>file_size := 9007199254740992\<rparr>)
                                 (ex_db_used 1)))))))
     = Some 0"
proof -
  let ?f = "ex_new\<lparr>file_size := 9007199254740992\<rparr>"
  have f: "file_id ?f = ''fi-9''" "file_ownerId ?f = ''u1''" "file_size ?f = 9007199254740992"
    by (simp_all add: ex_new_def)
  have get: "users_index_get (file_ownerId ?f) (users (ex_db_used 1))
      = Some (ex_user\<lparr>user_storageUsed := 1\<rparr>)"
    by (simp only: f users_index_get_ex_db_used)
  have "map_option user_storageUsed
           (users_index_get (file_ownerId ?f)
              (users (snd (deleteFileFromDB (file_id ?f) (file_ownerId ?f) (file_size ?f)
                             (snd (addFileToDB ?f (ex_db_used 1)))))))
         = Some (double_add (double_add (user_storageUsed (ex_user\<lparr>user_storageUsed := 1\<rparr>))
                    (file_size ?f)) (- file_size ?f))"
    by (rule upload_then_purge_storageUsed [OF wf_users_ex_db_used get])
  then have "map_option user_storageUsed
       (users_index_get ''u1''
          (users (snd (deleteFileFromDB ''fi-9'' ''u1'' 9007199254740992
                         (snd (addFileToDB ?f (ex_db_used 1))))))) = Some 0"
    by (simp only: f) (simp add: double_add_one_2p53 double_add_2p53_minus)
  then show ?thesis
    by (simp add: users_index_get_ex_db_used)
qed

text \<open>
  C1, amended. For a user \<open>u\<close> that exists in the store and a file \<open>f\<close> owned by \<open>u\<close> such that
  the owner's \<open>storageUsed\<close>, the size of the file and their sum are safe integers (magnitude
  at most \<open>2^53 - 1\<close>): after \<open>addFileToDB f\<close> the owner's \<open>storageUsed\<close> is the old value plus
  the size, and after \<open>deleteFileFromDB\<close> of that file with the same size, run on the database
  the upload left, it is exactly the value before the upload. This holds whether the upload
  itself resolved or was rejected.
\<close>

theorem upload_then_purge_restores_storageUsed:
  assumes "wf_users (users d)"
    and "users_index_get (file_ownerId f) (users d) = Some u"
    and "safe_integer (user_storageUsed u)"
    and "safe_integer (file_size f)"
    and "safe_integer (user_storageUsed u + file_size f)"
  shows "map_option user_storageUsed
           (users_index_get (file_ownerId f) (users (snd (addFileToDB f d))))
         = Some (user_storageUsed u + file_size f)
       \<and> map_option user_storageUsed
           (users_index_get (file_ownerId f)
              (users (snd (deleteFileFromDB (file_id f) (file_ownerId f) (file_size f)
                             (snd (addFileToDB f d))))))
         = Some (user_storageUsed u)"
proof -
  have up: "double_add (user_storageUsed u) (file_size f) = user_storageUsed u + file_size f"
    by (rule double_add_safe [OF assms(5)])
  have "safe_integer (user_storageUsed u + file_size f + - file_size f)"
    using assms(3) by simp
  then have down: "double_add (user_storageUsed u + file_size f) (- file_size f)
      = user_storageUsed u"
    using double_add_safe [of "user_storageUsed u + file_size f" "- file_size f"] by simp
  show ?thesis
    using addFileToDB_storageUsed(2) [OF assms(1,2)] upload_then_purge_storageUsed [OF assms(1,2)]
    by (simp add: up down)
qed

theorem upload_then_purge_restores_storageUsed_witness:
  "wf_users (users ex_db) \<and> users_index_get (file_ownerId ex_new) (users ex_db) = Some ex_user
   \<and> safe_integer (user_storageUsed ex_user) \<and> safe_integer (file_size ex_new)
   \<and> safe_integer (user_storageUsed ex_user + file_size ex_new)
   \<and> map_option user_storageUsed
       (users_index_get ''u1'' (users (snd (addFileToDB ex_new ex_db)))) = Some 1006000
   \<and> map_option user_storageUsed
       (users_index_get ''u1''
          (users (snd (deleteFileFromDB ''fi-9'' ''u1'' 1000000 (snd (addFileToDB ex_new ex_db))))))
     = Some 6000"
proof -
  have wf: "wf_users (users ex_db)"
    by (simp add: wf_users_def ex_defs)
  have get: "users_index_get (file_ownerId ex_new) (users ex_db) = Some ex_user"
    by (simp add: users_index_get_def ex_defs)
  have s1: "safe_integer (user_storageUsed ex_user)"
    by (simp add: safe_integer_def ex_user_def)
  have s2: "safe_integer (file_size ex_new)"
    by (simp add: safe_integer_def ex_new_def)
  have s3: "safe_integer (user_storageUsed ex_user + file_size ex_new)"
    by (simp add: safe_integer_def ex_user_def ex_new_def)
  show ?thesis
    using wf get s1 s2 s3 upload_then_purge_restores_storageUsed [OF wf get s1 s2 s3]
    by (simp add: ex_new_def ex_user_def)
qed

lemma cursor_scan_SomeD:
  "cursor_scan t fs = Some f \<Longrightarrow>
     f \<in> set fs \<and> file_isShared f = Some True \<and> file_shareToken f = Some t
       \<and> file_isTrashed f \<noteq> Some True"
  by (induction fs) (auto split: if_splits elim: truthy.elims)

lemma cursor_scan_None_iff:
  "cursor_scan t fs = None \<longleftrightarrow>
     list_all (\<lambda>f. \<not> (file_isShared f = Some True \<and> file_shareToken f = Some t
                        \<and> file_isTrashed f \<noteq> Some True)) fs"
  by (induction fs) (auto elim: truthy.elims)

text \<open>
  C2. For every token \<open>t\<close> and every database, \<open>getFileByShareToken t\<close> resolves (it never
  rejects) and leaves the database as it was. When it resolves to a record, the record is in
  the \<^verbatim>\<open>files\<close> store, has \<open>isShared = true\<close>, has \<open>shareToken = t\<close> and is not trashed
  (\<open>isTrashed\<close> is \<^verbatim>\<open>false\<close> or \<^verbatim>\<open>undefined\<close>, the two values \<^verbatim>\<open>!file.isTrashed\<close> accepts).
  When it resolves to \<^verbatim>\<open>null\<close>, no record of the store has these three properties; so a
  token whose file is trashed, or whose sharing was disabled, gives \<^verbatim>\<open>null\<close>. A second call
  on the database the first call left returns what the first returned.
\<close>

theorem getFileByShareToken_live_shared_match:
  "\<exists>res. getFileByShareToken t d = (Inr res, d)
     \<and> (case res of
          Some f \<Rightarrow> f \<in> set (files d) \<and> file_isShared f = Some True
                      \<and> file_shareToken f = Some t \<and> file_isTrashed f \<noteq> Some True
        | None \<Rightarrow> list_all (\<lambda>f. \<not> (file_isShared f = Some True \<and> file_shareToken f = Some t
                                      \<and> file_isTrashed f \<noteq> Some True)) (files d))
     \<and> getFileByShareToken t (snd (getFileByShareToken t d)) = getFileByShareToken t d"
proof -
  have "case cursor_scan t (files d) of
          Some f \<Rightarrow> f \<in> set (files d) \<and> file_isShared f = Some True
                      \<and> file_shareToken f = Some t \<and> file_isTrashed f \<noteq> Some True
        | None \<Rightarrow> list_all (\<lambda>f. \<not> (file_isShared f = Some True \<and> file_shareToken f = Some t
                                      \<and> file_isTrashed f \<noteq> Some True)) (files d)"
    using cursor_scan_SomeD [of t "files d"] cursor_scan_None_iff [of t "files d"]
    by (simp split: option.split)
  then show ?thesis
    by (simp add: getFileByShareToken_def)
qed

theorem getFileByShareToken_live_shared_match_witness:
  "getFileByShareToken ''tok'' ex_db = (Inr (Some ex_shared), ex_db)
   \<and> getFileByShareToken ''old'' ex_db = (Inr None, ex_db)
   \<and> ex_trashed \<in> set (files ex_db) \<and> file_shareToken ex_trashed = Some ''old''
   \<and> file_isTrashed ex_trashed = Some True
   \<and> getFileByShareToken ''none'' ex_db = (Inr None, ex_db)
   \<and> getFileByShareToken ''tok'' (snd (getFileByShareToken ''tok'' ex_db))
       = getFileByShareToken ''tok'' ex_db"
  using getFileByShareToken_live_shared_match [of "''tok''" ex_db] getFileByShareToken_live_shared_match [of "''old''" ex_db] getFileByShareToken_live_shared_match [of "''none''" ex_db]
  by (simp add: getFileByShareToken_def ex_defs)

lemma list_all_os_put: "P v \<Longrightarrow> list_all P rs \<Longrightarrow> list_all P (os_put key v rs)"
  using set_os_put_subset [of key v rs] by (auto simp: list_all_iff)

lemma list_all_os_delete: "list_all P rs \<Longrightarrow> list_all P (os_delete key k rs)"
  by (simp add: os_delete_def list_all_iff)

lemma list_all_os_get: "list_all P rs \<Longrightarrow> os_get key k rs = Some r \<Longrightarrow> P r"
  using os_get_SomeD [of key k rs r] by (auto simp: list_all_iff)

lemma files_updateUserStorage: "files (snd (updateUserStorage uid n d)) = files d"
  by (simp add: updateUserStorage_def split: option.split sum.split)

lemma files_inv_updateUserStorage:
  "files_inv d \<Longrightarrow> files_inv (snd (updateUserStorage uid n d))"
  by (simp add: files_inv_def files_updateUserStorage)

lemma files_inv_addFileToDB:
  assumes "files_inv d" and "share_inv f"
  shows "files_inv (snd (addFileToDB f d))"
proof -
  obtain r d1 where up: "updateUserStorage (file_ownerId f) (file_size f) d = (r, d1)"
    by (cases "updateUserStorage (file_ownerId f) (file_size f) d")
  have inv1: "list_all share_inv (files d1)"
    using files_inv_updateUserStorage [OF assms(1), of "file_ownerId f" "file_size f"] up
    by (simp add: files_inv_def)
  then have "list_all share_inv (os_put file_id f (files d1))"
    using assms(2) by (simp add: list_all_os_put)
  with inv1 show ?thesis
    by (simp add: addFileToDB_def up os_add_def files_inv_def split: sum.split option.split)
qed

lemma files_inv_trashFile: "files_inv d \<Longrightarrow> files_inv (snd (trashFile i now d))"
  by (cases "os_get file_id i (files d)")
     (auto simp: trashFile_def files_inv_def share_inv_def Let_def
           intro!: list_all_os_put dest: list_all_os_get)

lemma files_inv_restoreFile: "files_inv d \<Longrightarrow> files_inv (snd (restoreFile i d))"
  by (cases "os_get file_id i (files d)")
     (auto simp: restoreFile_def files_inv_def share_inv_def
           intro!: list_all_os_put dest: list_all_os_get)

lemma files_inv_deleteFileFromDB:
  assumes "files_inv d"
  shows "files_inv (snd (deleteFileFromDB i owner sz d))"
proof -
  obtain r d1 where up: "updateUserStorage owner (- sz) d = (r, d1)"
    by (cases "updateUserStorage owner (- sz) d")
  have "list_all share_inv (files d1)"
    using files_inv_updateUserStorage [OF assms, of owner "- sz"] up
    by (simp add: files_inv_def)
  then show ?thesis
    by (simp add: deleteFileFromDB_def up files_inv_def list_all_os_delete split: sum.split)
qed

lemma files_inv_purge_each: "files_inv d \<Longrightarrow> files_inv (snd (purge_each fs owner d))"
proof (induction fs arbitrary: d)
  case Nil
  then show ?case by simp
next
  case (Cons f fs)
  obtain r d1 where del: "deleteFileFromDB (file_id f) owner (file_size f) d = (r, d1)"
    by (cases "deleteFileFromDB (file_id f) owner (file_size f) d")
  have inv1: "files_inv d1"
    using files_inv_deleteFileFromDB [OF Cons.prems, of "file_id f" owner "file_size f"] del
    by simp
  show ?case
    using inv1 Cons.IH [OF inv1] by (simp add: del split: sum.split)
qed

lemma files_inv_emptyTrash: "files_inv d \<Longrightarrow> files_inv (snd (emptyTrash owner d))"
  by (simp add: emptyTrash_def getTrashedItems_def files_inv_purge_each)

lemma files_inv_other_stores:
  assumes "files_inv d"
  shows "files_inv (snd (registerUser usr d))"
    and "files_inv (snd (updateUser usr d))"
    and "files_inv (snd (deleteUser uname d))"
    and "files_inv (snd (addFolderToDB folder d))"
  using assms
  by (simp_all add: files_inv_def registerUser_def updateUser_def deleteUser_def
      addFolderToDB_def split: sum.split)

lemma files_inv_updateFileShareStatus:
  assumes "files_inv d" and "enabled \<longrightarrow> token \<noteq> None"
  shows "files_inv (snd (updateFileShareStatus i enabled token now d))"
  using assms
  by (cases "os_get file_id i (files d)")
     (auto simp: updateFileShareStatus_def files_inv_def share_inv_def intro!: list_all_os_put)

text \<open>
  C3, as stated, fails. The sample database satisfies the invariant, and
  \<open>updateFileShareStatus\<close> with \<open>enabled = true\<close> and an absent token resolves and leaves the
  unshared file \<^verbatim>\<open>fi-3\<close> with \<open>isShared = true\<close> and no \<open>shareToken\<close>: the function stores
  its optional third argument as it is given.
\<close>

theorem updateFileShareStatus_absent_token_counterexample:
  "files_inv ex_db
   \<and> fst (updateFileShareStatus ''fi-3'' True None ''2024-02-01'' ex_db) = Inr ()
   \<and> map_option file_isShared
       (os_get file_id ''fi-3''
          (files (snd (updateFileShareStatus ''fi-3'' True None ''2024-02-01'' ex_db))))
     = Some (Some True)
   \<and> map_option file_shareToken
       (os_get file_id ''fi-3''
          (files (snd (updateFileShareStatus ''fi-3'' True None ''2024-02-01'' ex_db))))
     = Some None
   \<and> \<not> files_inv (snd (updateFileShareStatus ''fi-3'' True None ''2024-02-01'' ex_db))"
  by (simp add: updateFileShareStatus_def files_inv_def share_inv_def ex_defs)

text \<open>
  C3, amended. From a database in which every shared file has a share token, every engine
  operation leaves such a database, provided the caller supplies one where the operation
  stores what it is given: \<open>addFileToDB\<close> of a record that itself satisfies the invariant, and
  \<open>updateFileShareStatus\<close> called with a present token whenever \<open>enabled = true\<close>.
  The operations on users and folders, \<open>updateUserStorage\<close>, \<open>trashFile\<close>, \<open>restoreFile\<close>,
  \<open>deleteFileFromDB\<close> and \<open>emptyTrash\<close> preserve it unconditionally. On an existing file \<open>updateFileShareStatus\<close> leaves exactly
  the token argument in \<open>shareToken\<close>, so the token is present afterwards precisely when the
  argument was.
\<close>

theorem share_invariant_preserved_given_token:
  assumes "files_inv d"
  shows "files_inv (snd (registerUser usr d))
    \<and> files_inv (snd (updateUser usr d))
    \<and> files_inv (snd (deleteUser uname d))
    \<and> files_inv (snd (addFolderToDB folder d))
    \<and> files_inv (snd (updateUserStorage uid n d))
    \<and> (share_inv f \<longrightarrow> files_inv (snd (addFileToDB f d)))
    \<and> files_inv (snd (trashFile i now d))
    \<and> files_inv (snd (restoreFile i d))
    \<and> files_inv (snd (deleteFileFromDB i owner sz d))
    \<and> files_inv (snd (emptyTrash owner d))
    \<and> ((enabled \<longrightarrow> token \<noteq> None)
         \<longrightarrow> files_inv (snd (updateFileShareStatus i enabled token now d)))
    \<and> (\<forall>g. os_get file_id i (files d) = Some g \<longrightarrow>
          map_option file_shareToken
            (os_get file_id i (files (snd (updateFileShareStatus i enabled token now d))))
          = Some token)"
proof -
  have "map_option file_shareToken
            (os_get file_id i (files (snd (updateFileShareStatus i enabled token now d))))
          = Some token" if "os_get file_id i (files d) = Some g" for g
  proof -
    let ?g = "g\<lparr>file_isShared := Some enabled, file_shareToken := token,
                 file_shareCreatedAt := (if enabled then Some now else None)\<rparr>"
    have "file_id g = i" using os_get_SomeD [OF that] by simp
    then have "os_get file_id i (os_put file_id ?g (files d)) = Some ?g"
      using os_get_put_same [of file_id ?g "files d"] by simp
    then show ?thesis
      by (simp add: updateFileShareStatus_def that)
  qed
  then show ?thesis
    using assms
    by (simp add: files_inv_updateUserStorage files_inv_addFileToDB files_inv_trashFile
        files_inv_restoreFile files_inv_deleteFileFromDB files_inv_emptyTrash
        files_inv_updateFileShareStatus files_inv_other_stores)
qed

theorem share_invariant_preserved_given_token_witness:
  "files_inv ex_db \<and> share_inv ex_new
   \<and> files_inv (snd (addFileToDB ex_new ex_db))
   \<and> files_inv (snd (trashFile ''fi-1'' ''2024-02-01'' ex_db))
   \<and> files_inv (snd (emptyTrash ''u1'' ex_db))
   \<and> files_inv (snd (updateFileShareStatus ''fi-3'' True (Some ''t2'') ''2024-02-01'' ex_db))
   \<and> os_get file_id ''fi-3'' (files ex_db) = Some ex_foreign
   \<and> map_option file_shareToken
       (os_get file_id ''fi-3''
          (files (snd (updateFileShareStatus ''fi-3'' True (Some ''t2'') ''2024-02-01'' ex_db))))
     = Some (Some ''t2'')"
proof -
  have inv: "files_inv ex_db"
    by (simp add: files_inv_def share_inv_def ex_defs)
  have new: "share_inv ex_new"
    by (simp add: share_inv_def ex_new_def)
  have get: "os_get file_id ''fi-3'' (files ex_db) = Some ex_foreign"
    by (simp add: ex_defs)
  show ?thesis
    using inv new get
      share_invariant_preserved_given_token [OF inv, where f = ex_new and i = "''fi-1''" and now = "''2024-02-01''"
            and owner = "''u1''"]
      share_invariant_preserved_given_token [OF inv, where i = "''fi-3''" and now = "''2024-02-01''" and enabled = True
            and token = "Some ''t2''"]
    by simp
qed

lemma trashFile_present:
  assumes "os_get file_id i (files d) = Some f"
  shows "fst (trashFile i now d) = Inr ()"
    and "os_get file_id i (files (snd (trashFile i now d)))
         = Some (f\<lparr>file_isTrashed := Some True, file_trashedAt := Some now,
                   file_isShared := (if truthy (file_isShared f) then Some False
                                     else file_isShared f)\<rparr>)"
proof -
  have fid: "file_id f = i" using os_get_SomeD [OF assms] by simp
  show "fst (trashFile i now d) = Inr ()"
    by (simp add: trashFile_def assms Let_def)
  let ?f1 = "f\<lparr>file_isTrashed := Some True, file_trashedAt := Some now\<rparr>"
  let ?f2 = "if truthy (file_isShared ?f1) then ?f1\<lparr>file_isShared := Some False\<rparr> else ?f1"
  have "os_get file_id (file_id ?f2) (os_put file_id ?f2 (files d)) = Some ?f2"
    by (rule os_get_put_same)
  moreover have "file_id ?f2 = i" using fid by simp
  ultimately have "os_get file_id i (os_put file_id ?f2 (files d)) = Some ?f2" by simp
  then show "os_get file_id i (files (snd (trashFile i now d)))
         = Some (f\<lparr>file_isTrashed := Some True, file_trashedAt := Some now,
                   file_isShared := (if truthy (file_isShared f) then Some False
                                     else file_isShared f)\<rparr>)"
    by (simp add: trashFile_def assms Let_def)
qed

lemma restoreFile_present:
  assumes "os_get file_id i (files d) = Some f"
  shows "fst (restoreFile i d) = Inr ()"
    and "os_get file_id i (files (snd (restoreFile i d)))
         = Some (f\<lparr>file_isTrashed := Some False, file_trashedAt := None\<rparr>)"
proof -
  have fid: "file_id f = i" using os_get_SomeD [OF assms] by simp
  show "fst (restoreFile i d) = Inr ()"
    by (simp add: restoreFile_def assms)
  let ?f1 = "f\<lparr>file_isTrashed := Some False, file_trashedAt := None\<rparr>"
  have "os_get file_id (file_id ?f1) (os_put file_id ?f1 (files d)) = Some ?f1"
    by (rule os_get_put_same)
  with fid show "os_get file_id i (files (snd (restoreFile i d))) = Some ?f1"
    by (simp add: restoreFile_def assms)
qed

text \<open>
  C4. For every file \<open>f\<close> stored under \<open>i\<close>: \<open>trashFile i\<close> resolves and leaves under \<open>i\<close> a
  record that is not shared (\<open>isShared\<close> is \<^verbatim>\<open>false\<close> whenever the field was set before, and
  stays \<^verbatim>\<open>undefined\<close>, which the engine reads as not shared, when it was never set), with
  \<open>isTrashed = true\<close> and \<open>trashedAt\<close> the time of the call. \<open>restoreFile i\<close> resolves and
  leaves \<open>isTrashed = false\<close>, no \<open>trashedAt\<close>, and \<open>isShared\<close> as it found it. Hence after
  \<open>trashFile\<close> and then \<open>restoreFile\<close> the file is not shared, whatever its share state was.
\<close>

theorem trashFile_unshares_restoreFile_keeps:
  assumes "os_get file_id i (files d) = Some f"
  shows "(\<exists>t. fst (trashFile i now d) = Inr ()
            \<and> os_get file_id i (files (snd (trashFile i now d))) = Some t
            \<and> \<not> truthy (file_isShared t)
            \<and> (file_isShared f \<noteq> None \<longrightarrow> file_isShared t = Some False)
            \<and> file_isTrashed t = Some True \<and> file_trashedAt t = Some now)
       \<and> (\<exists>r. fst (restoreFile i d) = Inr ()
            \<and> os_get file_id i (files (snd (restoreFile i d))) = Some r
            \<and> file_isTrashed r = Some False \<and> file_trashedAt r = None
            \<and> file_isShared r = file_isShared f)
       \<and> (\<exists>r. fst (restoreFile i (snd (trashFile i now d))) = Inr ()
            \<and> os_get file_id i (files (snd (restoreFile i (snd (trashFile i now d))))) = Some r
            \<and> file_isTrashed r = Some False \<and> file_trashedAt r = None
            \<and> \<not> truthy (file_isShared r))"
proof -
  let ?t = "f\<lparr>file_isTrashed := Some True, file_trashedAt := Some now,
               file_isShared := (if truthy (file_isShared f) then Some False
                                 else file_isShared f)\<rparr>"
  note tr = trashFile_present [OF assms, of now]
  have nt: "\<not> truthy (file_isShared ?t)" by simp
  have sf: "file_isShared f \<noteq> None \<longrightarrow> file_isShared ?t = Some False"
    by (cases "file_isShared f") auto
  have part1: "\<exists>t. fst (trashFile i now d) = Inr ()
            \<and> os_get file_id i (files (snd (trashFile i now d))) = Some t
            \<and> \<not> truthy (file_isShared t)
            \<and> (file_isShared f \<noteq> None \<longrightarrow> file_isShared t = Some False)
            \<and> file_isTrashed t = Some True \<and> file_trashedAt t = Some now"
    using tr nt sf by (intro exI [of _ ?t]) simp
  note re = restoreFile_present [OF assms]
  have part2: "\<exists>r. fst (restoreFile i d) = Inr ()
            \<and> os_get file_id i (files (snd (restoreFile i d))) = Some r
            \<and> file_isTrashed r = Some False \<and> file_trashedAt r = None
            \<and> file_isShared r = file_isShared f"
    using re by simp
  note re2 = restoreFile_present [OF tr(2)]
  have part3: "\<exists>r. fst (restoreFile i (snd (trashFile i now d))) = Inr ()
            \<and> os_get file_id i (files (snd (restoreFile i (snd (trashFile i now d))))) = Some r
            \<and> file_isTrashed r = Some False \<and> file_trashedAt r = None
            \<and> \<not> truthy (file_isShared r)"
    using re2 nt by simp
  from part1 part2 part3 show ?thesis by blast
qed

theorem trashFile_unshares_restoreFile_keeps_witness:
  "os_get file_id ''fi-1'' (files ex_db) = Some ex_shared
   \<and> file_isShared ex_shared = Some True
   \<and> fst (trashFile ''fi-1'' ''2024-02-01'' ex_db) = Inr ()
   \<and> map_option file_isShared
       (os_get file_id ''fi-1'' (files (snd (trashFile ''fi-1'' ''2024-02-01'' ex_db))))
     = Some (Some False)
   \<and> map_option file_isTrashed
       (os_get file_id ''fi-1'' (files (snd (trashFile ''fi-1'' ''2024-02-01'' ex_db))))
     = Some (Some True)
   \<and> map_option file_isShared
       (os_get file_id ''fi-1''
         (files (snd (restoreFile ''fi-1'' (snd (trashFile ''fi-1'' ''2024-02-01'' ex_db))))))
     = Some (Some False)"
proof -
  have get: "os_get file_id ''fi-1'' (files ex_db) = Some ex_shared"
    by (simp add: ex_defs)
  have sh: "file_isShared ex_shared = Some True"
    by (simp add: ex_shared_def)
  show ?thesis
    using get sh trashFile_unshares_restoreFile_keeps [OF get, of "''2024-02-01''"]
    by (simp add: trashFile_def restoreFile_def ex_defs)
qed

text \<open>
  C5. When no file is stored under \<open>i\<close>, \<open>trashFile i\<close> and \<open>restoreFile i\<close> resolve and
  return the database unchanged; when no user has id \<open>uid\<close>, \<open>updateUserStorage uid n\<close>
  resolves and returns the database unchanged.
\<close>

theorem soft_operations_ignore_missing:
  "(os_get file_id i (files d) = None \<longrightarrow>
      trashFile i now d = (Inr (), d) \<and> restoreFile i d = (Inr (), d))
   \<and> (users_index_get uid (users d) = None \<longrightarrow> updateUserStorage uid n d = (Inr (), d))"
  by (simp add: trashFile_def restoreFile_def updateUserStorage_def)

theorem soft_operations_ignore_missing_witness:
  "os_get file_id ''fi-404'' (files ex_db) = None
   \<and> trashFile ''fi-404'' ''2024-02-01'' ex_db = (Inr (), ex_db)
   \<and> restoreFile ''fi-404'' ex_db = (Inr (), ex_db)
   \<and> users_index_get ''u404'' (users ex_db) = None
   \<and> updateUserStorage ''u404'' 1000 ex_db = (Inr (), ex_db)"
proof -
  have nf: "os_get file_id ''fi-404'' (files ex_db) = None"
    by (simp add: ex_defs)
  have nu: "users_index_get ''u404'' (users ex_db) = None"
    by (simp add: users_index_get_def ex_defs)
  show ?thesis
    using nf nu soft_operations_ignore_missing [of "''fi-404''" ex_db "''2024-02-01''" "''u404''" 1000] by simp
qed

text \<open>
  C6. When no file is stored under \<open>fileId\<close>, \<open>updateFileShareStatus\<close> rejects with the
  not-found error, for either value of \<open>enabled\<close> and any token, and the database is
  unchanged.
\<close>

theorem updateFileShareStatus_missing_rejects:
  assumes "os_get file_id fileId (files d) = None"
  shows "updateFileShareStatus fileId enabled token now d = (Inl ArquivoNaoEncontrado, d)"
  using assms by (simp add: updateFileShareStatus_def)

theorem updateFileShareStatus_missing_rejects_witness:
  "os_get file_id ''fi-404'' (files ex_db) = None
   \<and> updateFileShareStatus ''fi-404'' True (Some ''t2'') ''2024-02-01'' ex_db
       = (Inl ArquivoNaoEncontrado, ex_db)
   \<and> updateFileShareStatus ''fi-404'' False None ''2024-02-01'' ex_db
       = (Inl ArquivoNaoEncontrado, ex_db)"
proof -
  have nf: "os_get file_id ''fi-404'' (files ex_db) = None"
    by (simp add: ex_defs)
  show ?thesis
    using nf updateFileShareStatus_missing_rejects [OF nf, of True "Some ''t2''" "''2024-02-01''"]
      updateFileShareStatus_missing_rejects [OF nf, of False None "''2024-02-01''"]
    by simp
qed





text \<open>
  C8. Whether \<open>addFileToDB\<close> resolves is decided by the \<^verbatim>\<open>files\<close> store alone: it resolves
  when the id of the file is free and rejects with \<^verbatim>\<open>ConstraintError\<close> when it is taken;
  \<open>storageUsed\<close> and \<open>storageLimit\<close> play no part. In particular, for an owner whose
  \<open>storageUsed\<close> is already at or above \<open>storageLimit\<close> and a file with a free id, of any
  size, the upload resolves, the record is stored and \<open>storageUsed\<close> becomes the double sum of
  the old value and the size; that is the old value plus the size when the two and their sum
  are safe integers.
\<close>

theorem addFileToDB_ignores_quota:
  assumes "wf_users (users d)"
  shows "fst (addFileToDB f d)
           = (case os_get file_id (file_id f) (files d) of
                None \<Rightarrow> Inr () | Some g \<Rightarrow> Inl ConstraintError)
       \<and> (users_index_get (file_ownerId f) (users d) = Some u
            \<and> user_storageLimit u \<le> user_storageUsed u
            \<and> os_get file_id (file_id f) (files d) = None
          \<longrightarrow> fst (addFileToDB f d) = Inr ()
              \<and> os_get file_id (file_id f) (files (snd (addFileToDB f d))) = Some f
              \<and> users_index_get (file_ownerId f) (users (snd (addFileToDB f d)))
                  = Some (u\<lparr>user_storageUsed := double_add (user_storageUsed u) (file_size f)\<rparr>))
       \<and> (users_index_get (file_ownerId f) (users d) = Some u
            \<and> user_storageLimit u \<le> user_storageUsed u
            \<and> os_get file_id (file_id f) (files d) = None
            \<and> safe_integer (user_storageUsed u) \<and> safe_integer (file_size f)
            \<and> safe_integer (user_storageUsed u + file_size f)
          \<longrightarrow> users_index_get (file_ownerId f) (users (snd (addFileToDB f d)))
                  = Some (u\<lparr>user_storageUsed := user_storageUsed u + file_size f\<rparr>))"
proof -
  have outcome: "fst (addFileToDB f d)
           = (case os_get file_id (file_id f) (files d) of
                None \<Rightarrow> Inr () | Some g \<Rightarrow> Inl ConstraintError)"
  proof (cases "users_index_get (file_ownerId f) (users d)")
    case None
    then show ?thesis
      by (simp add: addFileToDB_def updateUserStorage_absent os_add_def split: option.split)
  next
    case (Some v)
    show ?thesis
      by (simp add: addFileToDB_def updateUserStorage_present [OF assms Some] os_add_def
          split: option.split)
  qed
  have over: "fst (addFileToDB f d) = Inr ()
              \<and> os_get file_id (file_id f) (files (snd (addFileToDB f d))) = Some f
              \<and> users_index_get (file_ownerId f) (users (snd (addFileToDB f d)))
                  = Some (u\<lparr>user_storageUsed := double_add (user_storageUsed u) (file_size f)\<rparr>)"
    if u: "users_index_get (file_ownerId f) (users d) = Some u"
      and fresh: "os_get file_id (file_id f) (files d) = None"
  proof -
    have "os_get file_id (file_id f) (files (snd (addFileToDB f d))) = Some f"
      by (simp add: addFileToDB_def updateUserStorage_present [OF assms u] os_add_def fresh
          os_get_put_same)
    with addFileToDB_storageUsed(2) [OF assms u] outcome fresh show ?thesis
      by simp
  qed
  have exact: "users_index_get (file_ownerId f) (users (snd (addFileToDB f d)))
                  = Some (u\<lparr>user_storageUsed := user_storageUsed u + file_size f\<rparr>)"
    if u: "users_index_get (file_ownerId f) (users d) = Some u"
      and safe: "safe_integer (user_storageUsed u + file_size f)"
    using addFileToDB_storageUsed(2) [OF assms u] double_add_safe [OF safe] by simp
  from outcome over exact show ?thesis by blast
qed

theorem addFileToDB_ignores_quota_witness:
  "wf_users (users ex_db)
   \<and> users_index_get (file_ownerId ex_new) (users ex_db) = Some ex_user
   \<and> user_storageLimit ex_user \<le> user_storageUsed ex_user
   \<and> os_get file_id (file_id ex_new) (files ex_db) = None
   \<and> safe_integer (user_storageUsed ex_user) \<and> safe_integer (file_size ex_new)
   \<and> safe_integer (user_storageUsed ex_user + file_size ex_new)
   \<and> fst (addFileToDB ex_new ex_db) = Inr ()
   \<and> os_get file_id ''fi-9'' (files (snd (addFileToDB ex_new ex_db))) = Some ex_new
   \<and> map_option user_storageUsed
       (users_index_get ''u1'' (users (snd (addFileToDB ex_new ex_db)))) = Some 1006000"
proof -
  have wf: "wf_users (users ex_db)"
    by (simp add: wf_users_def ex_defs)
  have get: "users_index_get (file_ownerId ex_new) (users ex_db) = Some ex_user"
    by (simp add: users_index_get_def ex_defs)
  have over: "user_storageLimit ex_user \<le> user_storageUsed ex_user"
    by (simp add: ex_user_def)
  have fresh: "os_get file_id (file_id ex_new) (files ex_db) = None"
    by (simp add: ex_defs)
  have s1: "safe_integer (user_storageUsed ex_user)"
    by (simp add: safe_integer_def ex_user_def)
  have s2: "safe_integer (file_size ex_new)"
    by (simp add: safe_integer_def ex_new_def)
  have s3: "safe_integer (user_storageUsed ex_user + file_size ex_new)"
    by (simp add: safe_integer_def ex_user_def ex_new_def)
  note t = addFileToDB_ignores_quota [OF wf, of ex_new ex_user]
  from t get over fresh have a: "fst (addFileToDB ex_new ex_db) = Inr ()"
    and b: "os_get file_id (file_id ex_new) (files (snd (addFileToDB ex_new ex_db))) = Some ex_new"
    by blast+
  from t get over fresh s1 s2 s3
  have "users_index_get (file_ownerId ex_new) (users (snd (addFileToDB ex_new ex_db)))
      = Some (ex_user\<lparr>user_storageUsed := user_storageUsed ex_user + file_size ex_new\<rparr>)"
    by blast
  then have c: "map_option user_storageUsed
       (users_index_get ''u1'' (users (snd (addFileToDB ex_new ex_db)))) = Some 1006000"
    by (simp add: ex_new_def ex_user_def)
  from b have b': "os_get file_id ''fi-9'' (files (snd (addFileToDB ex_new ex_db))) = Some ex_new"
    by (simp add: ex_new_def)
  from wf get over fresh s1 s2 s3 a b' c show ?thesis
    by simp
qed

text \<open>
  C9. \<open>getFilesFromDB parentId ownerId\<close> and \<open>getFoldersFromDB parentId ownerId\<close> resolve and
  leave the database as it was. Every entry returned is in the store, has the given owner,
  has the given parent and is not trashed; and every entry of the store with these three
  properties is returned.
\<close>

theorem listing_only_owner_parent_untrashed:
  "\<exists>fs ds. getFilesFromDB parentId ownerId d = (Inr fs, d)
     \<and> getFoldersFromDB parentId ownerId d = (Inr ds, d)
     \<and> (\<forall>f \<in> set fs. f \<in> set (files d) \<and> file_ownerId f = ownerId
            \<and> file_parentId f = parentId \<and> file_isTrashed f \<noteq> Some True)
     \<and> (\<forall>f \<in> set ds. f \<in> set (folders d) \<and> folder_ownerId f = ownerId
            \<and> folder_parentId f = Some parentId \<and> folder_isTrashed f \<noteq> Some True)
     \<and> (\<forall>f \<in> set (files d). file_ownerId f = ownerId \<and> file_parentId f = parentId
            \<and> file_isTrashed f \<noteq> Some True \<longrightarrow> f \<in> set fs)
     \<and> (\<forall>f \<in> set (folders d). folder_ownerId f = ownerId \<and> folder_parentId f = Some parentId
            \<and> folder_isTrashed f \<noteq> Some True \<longrightarrow> f \<in> set ds)"
proof -
  have t: "truthy b \<longleftrightarrow> b = Some True" for b
    by (cases b) auto
  show ?thesis
    by (auto simp: getFilesFromDB_def getFoldersFromDB_def index_getAll_def t)
qed

theorem listing_only_owner_parent_untrashed_witness:
  "getFilesFromDB ''root'' ''u1'' ex_db = (Inr [ex_shared], ex_db)
   \<and> getFoldersFromDB ''root'' ''u1'' ex_db = (Inr [ex_folder], ex_db)
   \<and> file_ownerId ex_shared = ''u1'' \<and> file_parentId ex_shared = ''root''
   \<and> file_isTrashed ex_shared \<noteq> Some True
   \<and> folder_ownerId ex_folder = ''u1'' \<and> folder_parentId ex_folder = Some ''root''
   \<and> folder_isTrashed ex_folder \<noteq> Some True
   \<and> ex_trashed \<in> set (files ex_db) \<and> ex_foreign \<in> set (files ex_db)
   \<and> ex_folder_trashed \<in> set (folders ex_db) \<and> ex_folder_foreign \<in> set (folders ex_db)"
  using listing_only_owner_parent_untrashed [of "''root''" "''u1''" ex_db]
  by (simp add: getFilesFromDB_def getFoldersFromDB_def index_getAll_def ex_defs)

lemma deleteFileFromDB_present:
  assumes "wf_users (users d)"
    and "users_index_get ownerId (users d) = Some u"
  shows "fst (deleteFileFromDB ident ownerId sz d) = Inr ()"
    and "files (snd (deleteFileFromDB ident ownerId sz d)) = os_delete file_id ident (files d)"
  by (simp_all add: deleteFileFromDB_def updateUserStorage_present [OF assms])

text \<open>
  C10, as stated, fails. The user of the sample database has \<open>storageUsed = 2^54\<close>; the purge
  of a file of one byte, stored or not, resolves and leaves \<open>storageUsed = 2^54\<close>: the
  difference \<open>2^54 - 1\<close> is not a double and rounds back to \<open>2^54\<close>.
\<close>

theorem deleteFileFromDB_rounding_counterexample:
  "map_option user_storageUsed
       (users_index_get ''u1'' (users (ex_db_used 18014398509481984))) = Some 18014398509481984
   \<and> fst (deleteFileFromDB ''fi-404'' ''u1'' 1 (ex_db_used 18014398509481984)) = Inr ()
   \<and> map_option user_storageUsed
       (users_index_get ''u1''
          (users (snd (deleteFileFromDB ''fi-404'' ''u1'' 1 (ex_db_used 18014398509481984)))))
     = Some 18014398509481984"
proof -
  let ?d = "ex_db_used 18014398509481984"
  have get: "users_index_get ''u1'' (users ?d)
      = Some (ex_user\<lparr>user_storageUsed := 18014398509481984\<rparr>)"
    by (rule users_index_get_ex_db_used)
  have resolved: "fst (deleteFileFromDB ''fi-404'' ''u1'' 1 ?d) = Inr ()"
    by (rule deleteFileFromDB_present(1) [OF wf_users_ex_db_used get])
  have "users_index_get ''u1'' (users (snd (deleteFileFromDB ''fi-404'' ''u1'' 1 ?d)))
      = Some (ex_user\<lparr>user_storageUsed := 18014398509481984,
                       user_storageUsed := double_add 18014398509481984 (- 1)\<rparr>)"
    using deleteFileFromDB_storageUsed [OF wf_users_ex_db_used get, where i = "''fi-404''" and sz = 1]
    by simp
  then have used: "map_option user_storageUsed
       (users_index_get ''u1'' (users (snd (deleteFileFromDB ''fi-404'' ''u1'' 1 ?d))))
     = Some 18014398509481984"
    by (simp add: double_add_2p54_minus_one)
  from resolved used show ?thesis
    by (simp add: get)
qed

text \<open>
  C10, amended. When the owner exists, \<open>deleteFileFromDB ident ownerId sz\<close> resolves for every
  \<open>ident\<close>, whether or not a file is stored under it, and afterwards no file is stored under
  \<open>ident\<close>. When the owner's \<open>storageUsed\<close>, the size \<open>sz\<close> and their difference are safe
  integers, it leaves the owner's record with \<open>storageUsed\<close> smaller by exactly \<open>sz\<close>.
\<close>

theorem deleteFileFromDB_decrements_always:
  assumes "wf_users (users d)"
    and "users_index_get ownerId (users d) = Some u"
    and "safe_integer (user_storageUsed u)"
    and "safe_integer sz"
    and "safe_integer (user_storageUsed u - sz)"
  shows "fst (deleteFileFromDB ident ownerId sz d) = Inr ()
       \<and> users_index_get ownerId (users (snd (deleteFileFromDB ident ownerId sz d)))
           = Some (u\<lparr>user_storageUsed := user_storageUsed u - sz\<rparr>)
       \<and> os_get file_id ident (files (snd (deleteFileFromDB ident ownerId sz d))) = None"
proof -
  have "double_add (user_storageUsed u) (- sz) = user_storageUsed u - sz"
    using double_add_safe [of "user_storageUsed u" "- sz"] assms(5) by simp
  then have used: "users_index_get ownerId (users (snd (deleteFileFromDB ident ownerId sz d)))
           = Some (u\<lparr>user_storageUsed := user_storageUsed u - sz\<rparr>)"
    using deleteFileFromDB_storageUsed [OF assms(1,2), of ident sz] by simp
  have gone: "os_get file_id ident (os_delete file_id ident (files d)) = None"
    by (auto simp: os_get_None_iff os_delete_def)
  show ?thesis
    using used gone by (simp add: deleteFileFromDB_present [OF assms(1,2)])
qed

theorem deleteFileFromDB_decrements_always_witness:
  "wf_users (users ex_db)
   \<and> users_index_get ''u1'' (users ex_db) = Some ex_user
   \<and> safe_integer (user_storageUsed ex_user) \<and> safe_integer 250
   \<and> safe_integer (user_storageUsed ex_user - 250)
   \<and> os_get file_id ''fi-404'' (files ex_db) = None
   \<and> fst (deleteFileFromDB ''fi-404'' ''u1'' 250 ex_db) = Inr ()
   \<and> map_option user_storageUsed
       (users_index_get ''u1'' (users (snd (deleteFileFromDB ''fi-404'' ''u1'' 250 ex_db))))
     = Some 5750
   \<and> files (snd (deleteFileFromDB ''fi-404'' ''u1'' 250 ex_db)) = files ex_db"
proof -
  have wf: "wf_users (users ex_db)"
    by (simp add: wf_users_def ex_defs)
  have get: "users_index_get ''u1'' (users ex_db) = Some ex_user"
    by (simp add: users_index_get_def ex_defs)
  have s1: "safe_integer (user_storageUsed ex_user)"
    by (simp add: safe_integer_def ex_user_def)
  have s2: "safe_integer 250"
    by (simp add: safe_integer_def)
  have s3: "safe_integer (user_storageUsed ex_user - 250)"
    by (simp add: safe_integer_def ex_user_def)
  have nf: "os_get file_id ''fi-404'' (files ex_db) = None"
    by (simp add: ex_defs)
  have same: "files (snd (deleteFileFromDB ''fi-404'' ''u1'' 250 ex_db)) = files ex_db"
    by (simp add: deleteFileFromDB_present(2) [OF wf get] os_delete_def) (simp add: ex_defs)
  show ?thesis
    using wf get s1 s2 s3 nf same
      deleteFileFromDB_decrements_always [OF wf get s1 s2 s3, of "''fi-404''"]
    by (simp add: ex_user_def)
qed

end
